theory Spec2Isabelle
  imports Main
begin

section \<open>JavaScript values and the built-ins the library calls\<close>

text \<open>
  The library is JavaScript. The values that flow through the functions modelled here
  are \<open>undefined\<close>, booleans, integer-valued numbers, \<open>NaN\<close> and strings. A number is a
  mathematical integer: the model covers the integers that JavaScript prints in plain
  decimal notation (every magnitude below \<open>10^21\<close>, which contains all safe integers);
  fractions, infinities and the exponent notation of larger magnitudes are outside it.
\<close>

datatype jsval = Undefined | Bool bool | Num int | NaN | Str string

text \<open>
  The two exceptions that can leave a function of the library: the library's own
  \<open>IllegalArgumentException\<close> (package \<open>jsexception\<close>), and the runtime's \<open>TypeError\<close>
  for a property read on \<open>null\<close>.
\<close>

datatype error = IllegalArgument | TypeError

datatype 'a outcome = Return 'a | Throw error

subsection \<open>Number to string\<close>

definition digit_char :: "nat \<Rightarrow> char" where
  "digit_char n = char_of (48 + n)"

fun digits :: "nat \<Rightarrow> string" where
  "digits n = (if n < 10 then [digit_char n] else digits (n div 10) @ [digit_char (n mod 10)])"

declare digits.simps [simp del]

definition number_to_string :: "int \<Rightarrow> string" where
  "number_to_string v = (if v < 0 then CHR ''-'' # digits (nat (- v)) else digits (nat v))"

text \<open>\<open>ToString\<close>, as applied by string concatenation and by the DOM on a write.\<close>

fun ToString :: "jsval \<Rightarrow> string" where
  "ToString Undefined = ''undefined''"
| "ToString (Bool b) = (if b then ''true'' else ''false'')"
| "ToString (Num v) = number_to_string v"
| "ToString NaN = ''NaN''"
| "ToString (Str s) = s"

subsection \<open>\<open>String.prototype.substring\<close> and \<open>parseInt(_, 10)\<close>\<close>

text \<open>
  \<open>substring(start, end)\<close> clamps both indices to \<open>[0, length]\<close> and swaps them when
  \<open>start > end\<close>.
\<close>

definition clamp_index :: "string \<Rightarrow> int \<Rightarrow> nat" where
  "clamp_index s i = (if i < 0 then 0 else min (nat i) (length s))"

definition substring :: "string \<Rightarrow> int \<Rightarrow> int \<Rightarrow> string" where
  "substring s start end' =
     (let a = clamp_index s start; b = clamp_index s end';
          from = min a b; to = max a b
      in take (to - from) (drop from s))"

text \<open>
  \<open>parseInt(string, 10)\<close>: leading white space is skipped, one sign is read, then the
  longest run of decimal digits; no digit gives \<open>NaN\<close>. With radix 10 no \<open>0x\<close> prefix
  is recognised. White space is the ASCII part of the language's white space and line
  terminators.
\<close>

definition is_white_space :: "char \<Rightarrow> bool" where
  "is_white_space c = (of_char c \<in> {9, 10, 11, 12, 13, 32 :: nat})"

definition is_digit :: "char \<Rightarrow> bool" where
  "is_digit c = (48 \<le> (of_char c :: nat) \<and> (of_char c :: nat) \<le> 57)"

definition digit_value :: "char \<Rightarrow> nat" where
  "digit_value c = of_char c - 48"

definition digits_value :: "string \<Rightarrow> nat" where
  "digits_value z = foldl (\<lambda>acc c. acc * 10 + digit_value c) 0 z"

definition parseInt :: "string \<Rightarrow> jsval" where
  "parseInt inputString =
     (let s = dropWhile is_white_space inputString;
          negative = (s \<noteq> [] \<and> hd s = CHR ''-'');
          s' = (if s \<noteq> [] \<and> (hd s = CHR ''+'' \<or> hd s = CHR ''-'') then tl s else s);
          z = takeWhile is_digit s'
      in if z = [] then NaN
         else Num ((if negative then - 1 else 1) * int (digits_value z)))"

section \<open>The platform objects\<close>

text \<open>
  A DOM node, with the properties the library reads and writes. Nodes live in a store
  and are referred to by their address, so that \<open>===\<close> on nodes is equality of
  addresses; \<open>null\<close> and an omitted argument are \<open>None\<close>. \<open>tagName\<close> is \<open>undefined\<close>
  (\<open>None\<close>) on a node that is not an element. \<open>classList\<close> is the ordered token set,
  \<open>dataset\<close> the string map behind the \<open>data-*\<close> attributes (an absent key reads
  \<open>undefined\<close>), \<open>style\<close> the inline style declaration (an entry that is not set reads
  as the empty string). The token and name checks that the platform itself applies to
  \<open>classList\<close> and \<open>dataset\<close> writes are not part of the model.
\<close>

type_synonym node_id = nat

record node =
  nodeType :: nat
  tagName :: "string option"
  classList :: "string list"
  parentNode :: "node_id option"
  previousSibling :: "node_id option"
  dataset :: "string \<rightharpoonup> string"
  style :: "string \<Rightarrow> string"

type_synonym dom = "node_id \<Rightarrow> node"

definition ELEMENT_NODE :: nat where
  "ELEMENT_NODE = 1"

definition classList_contains :: "string list \<Rightarrow> string \<Rightarrow> bool" where
  "classList_contains cl token = (token \<in> set cl)"

definition classList_add :: "string list \<Rightarrow> string \<Rightarrow> string list" where
  "classList_add cl token = (if token \<in> set cl then cl else cl @ [token])"

definition classList_remove :: "string list \<Rightarrow> string \<Rightarrow> string list" where
  "classList_remove cl token = removeAll token cl"

text \<open>
  \<open>StringUtils\<close> belongs to the package \<open>jsstringutils\<close>, which is not part of this
  repository: its two predicates are parameters of every function that calls them.
\<close>

record StringUtils =
  isDashCase :: "string \<Rightarrow> bool"
  isCamelCase :: "string \<Rightarrow> bool"

text \<open>
  Modelled from the spec: \<open>StringUtils.isDashCase\<close> and \<open>StringUtils.isCamelCase\<close> of
  \<open>jsstringutils\<close>, for the concrete inputs of the examples only; every general theorem
  below holds for all predicates. Hyphen-case is lower-case letters and digits in groups
  joined by hyphens; camel case starts with a lower-case letter and has letters and
  digits only. The docstring of \<open>ComputeSize.getValue\<close> names \<open>margin-left\<close> as the form
  to use and \<open>marginLeft\<close> as the form not to use, and the accessors of \<open>ComputeSize\<close>
  pass \<open>left\<close> and \<open>margin-left\<close>.
\<close>

definition is_lower :: "char \<Rightarrow> bool" where
  "is_lower c = (97 \<le> (of_char c :: nat) \<and> (of_char c :: nat) \<le> 122)"

definition is_upper :: "char \<Rightarrow> bool" where
  "is_upper c = (65 \<le> (of_char c :: nat) \<and> (of_char c :: nat) \<le> 90)"

definition dash_case :: "string \<Rightarrow> bool" where
  "dash_case s =
     (s \<noteq> [] \<and> list_all (\<lambda>c. is_lower c \<or> is_digit c \<or> c = CHR ''-'') s
      \<and> hd s \<noteq> CHR ''-'' \<and> last s \<noteq> CHR ''-'')"

definition camel_case :: "string \<Rightarrow> bool" where
  "camel_case s =
     (s \<noteq> [] \<and> is_lower (hd s) \<and> list_all (\<lambda>c. is_lower c \<or> is_upper c \<or> is_digit c) s)"

definition StringUtils_spec :: StringUtils where
  "StringUtils_spec = \<lparr>isDashCase = dash_case, isCamelCase = camel_case\<rparr>"

section \<open>\<open>computesize.js\<close>: class \<open>ComputeSize\<close>\<close>

text \<open>
  \<open>computeStyle\<close> is the live view \<open>window.getComputedStyle(element)\<close>: what
  \<open>getPropertyValue\<close> returns depends on the element as it is when the property is read.
\<close>

record ComputeSize =
  element :: node
  computeStyle :: "node \<Rightarrow> string \<Rightarrow> string"

definition constructor :: "(node \<Rightarrow> string \<Rightarrow> string) \<Rightarrow> node \<Rightarrow> ComputeSize" where
  "constructor getComputedStyle el = \<lparr>element = el, computeStyle = getComputedStyle\<rparr>"

definition getValue :: "StringUtils \<Rightarrow> ComputeSize \<Rightarrow> string \<Rightarrow> string outcome" where
  "getValue su this name =
     (if \<not> isDashCase su name then Throw IllegalArgument
      else Return (computeStyle this (element this) name))"

definition setValue ::
  "StringUtils \<Rightarrow> ComputeSize \<Rightarrow> string \<Rightarrow> jsval \<Rightarrow> ComputeSize \<times> unit outcome" where
  "setValue su this name value =
     (if \<not> isDashCase su name then (this, Throw IllegalArgument)
      else
        let value' = (if value = Undefined then Str [] else value)
        in (this\<lparr>element :=
              (element this)\<lparr>style := (style (element this))(name := ToString value')\<rparr>\<rparr>,
            Return ()))"

definition getPixelValue :: "StringUtils \<Rightarrow> ComputeSize \<Rightarrow> string \<Rightarrow> jsval outcome" where
  "getPixelValue su this name =
     (case getValue su this name of
        Throw e \<Rightarrow> Throw e
      | Return pixel \<Rightarrow> Return (parseInt (substring pixel 0 (int (length pixel) - 2))))"

definition setPixelValue ::
  "StringUtils \<Rightarrow> ComputeSize \<Rightarrow> string \<Rightarrow> jsval \<Rightarrow> ComputeSize \<times> unit outcome" where
  "setPixelValue su this name value =
     (if value = Undefined \<or> value = Str [] then setValue su this name (Str [])
      else
        let pixel = Str (ToString value @ ''px'')
        in setValue su this name pixel)"

subsection \<open>The second \<open>ComputeSize\<close> of the repository (the file without a name)\<close>

definition getValue_part000 :: "ComputeSize \<Rightarrow> string \<Rightarrow> string" where
  "getValue_part000 this name = computeStyle this (element this) name"

definition setValue_part000 :: "ComputeSize \<Rightarrow> string \<Rightarrow> jsval \<Rightarrow> ComputeSize" where
  "setValue_part000 this name value =
     (let value' = (if value = Undefined then Str [] else value)
      in this\<lparr>element :=
           (element this)\<lparr>style := (style (element this))(name := ToString value')\<rparr>\<rparr>)"

definition getPixelValue_part000 :: "ComputeSize \<Rightarrow> string \<Rightarrow> jsval" where
  "getPixelValue_part000 this name =
     (let pixel = getValue_part000 this name
      in parseInt (substring pixel 0 (int (length pixel) - 2)))"

definition setPixelValue_part000 :: "ComputeSize \<Rightarrow> string \<Rightarrow> jsval \<Rightarrow> ComputeSize" where
  "setPixelValue_part000 this name value =
     (if value = Undefined \<or> value = Str [] then setValue_part000 this name (Str [])
      else
        let pixel = Str (ToString value @ ''px'')
        in setValue_part000 this name pixel)"

section \<open>\<open>domutils.js\<close>: class \<open>DomUtils\<close>\<close>

definition containsClassName :: "string list \<Rightarrow> string \<Rightarrow> bool" where
  "containsClassName cl className = classList_contains cl className"

definition containsAllClassNames :: "string list \<Rightarrow> string list \<Rightarrow> bool" where
  "containsAllClassNames cl classNames =
     (let clazzs = cl in list_all (\<lambda>item. item \<in> set clazzs) classNames)"

subsection \<open>The tree searches\<close>

text \<open>
  The test in the body of the three loops of \<open>findElementAndParent\<close>,
  \<open>findParentElement\<close> and \<open>findPreviousElementAndParent\<close>: \<open>True\<close> where the source
  reaches \<open>return element\<close>.
\<close>

definition matchesClassAndTag :: "node \<Rightarrow> string option \<Rightarrow> string option \<Rightarrow> bool" where
  "matchesClassAndTag el className tagName' =
     (if nodeType el = ELEMENT_NODE then
        (if className \<noteq> None \<and> tagName' \<noteq> None then
           containsClassName (classList el) (the className) \<and> tagName el = tagName'
         else if className \<noteq> None then
           containsClassName (classList el) (the className)
         else if tagName' \<noteq> None then
           tagName el = tagName'
         else False)
      else False)"

text \<open>
  Each \<open>while\<close> loop is a recursive function on the loop variable \<open>element\<close>; a walk
  that never ends has the value \<open>None\<close>. The result \<open>Return None\<close> is the \<open>undefined\<close>
  the source returns by falling off its end. In the second and third loop the body
  reads \<open>element.nodeType\<close> after \<open>element\<close> was reassigned: on \<open>null\<close> that read is
  a \<open>TypeError\<close>.
\<close>

partial_function (option) findElementAndParent ::
  "dom \<Rightarrow> node_id option \<Rightarrow> string option \<Rightarrow> string option \<Rightarrow> node_id option
    \<Rightarrow> node_id option outcome option" where
  "findElementAndParent d element' className tagName' topElement =
     (case element' of
        None \<Rightarrow> Some (Return None)
      | Some e \<Rightarrow>
          if Some e \<noteq> topElement \<and> tagName (d e) \<noteq> Some ''BODY'' then
            (if matchesClassAndTag (d e) className tagName' then Some (Return (Some e))
             else findElementAndParent d (parentNode (d e)) className tagName' topElement)
          else Some (Return None))"

partial_function (option) findParentElement ::
  "dom \<Rightarrow> node_id option \<Rightarrow> string option \<Rightarrow> string option \<Rightarrow> node_id option
    \<Rightarrow> node_id option outcome option" where
  "findParentElement d element' className tagName' topElement =
     (case element' of
        None \<Rightarrow> Some (Return None)
      | Some e \<Rightarrow>
          if Some e \<noteq> topElement \<and> tagName (d e) \<noteq> Some ''BODY'' then
            (case parentNode (d e) of
               None \<Rightarrow> Some (Throw TypeError)
             | Some p \<Rightarrow>
                 if matchesClassAndTag (d p) className tagName' then Some (Return (Some p))
                 else findParentElement d (Some p) className tagName' topElement)
          else Some (Return None))"

text \<open>The step of the third and fourth loop: the previous sibling, or else the parent.\<close>

definition previousOrParent :: "node \<Rightarrow> node_id option" where
  "previousOrParent el =
     (let previousElement = previousSibling el
      in if previousElement = None then parentNode el else previousElement)"

partial_function (option) findPreviousElementAndParent ::
  "dom \<Rightarrow> node_id option \<Rightarrow> string option \<Rightarrow> string option \<Rightarrow> node_id option
    \<Rightarrow> node_id option outcome option" where
  "findPreviousElementAndParent d element' className tagName' topElement =
     (case element' of
        None \<Rightarrow> Some (Return None)
      | Some e \<Rightarrow>
          if Some e \<noteq> topElement \<and> tagName (d e) \<noteq> Some ''BODY'' then
            (case previousOrParent (d e) of
               None \<Rightarrow> Some (Throw TypeError)
             | Some p \<Rightarrow>
                 if matchesClassAndTag (d p) className tagName' then Some (Return (Some p))
                 else findPreviousElementAndParent d (Some p) className tagName' topElement)
          else Some (Return None))"

partial_function (option) findPreviousElementAndParentByClassNames ::
  "dom \<Rightarrow> node_id option \<Rightarrow> string list \<Rightarrow> node_id option
    \<Rightarrow> node_id option outcome option" where
  "findPreviousElementAndParentByClassNames d element' classNames topElement =
     (case element' of
        None \<Rightarrow> Some (Return None)
      | Some e \<Rightarrow>
          if Some e \<noteq> topElement \<and> tagName (d e) \<noteq> Some ''BODY'' then
            (case previousOrParent (d e) of
               None \<Rightarrow> Some (Throw TypeError)
             | Some p \<Rightarrow>
                 if nodeType (d p) = ELEMENT_NODE
                    \<and> containsAllClassNames (classList (d p)) classNames
                 then Some (Return (Some p))
                 else findPreviousElementAndParentByClassNames d (Some p) classNames topElement)
          else Some (Return None))"

text \<open>
  The platform's tree: no node is reached from itself by parent and previous-sibling
  links, and every chain of such links ends.
\<close>

definition dom_links :: "dom \<Rightarrow> (node_id \<times> node_id) set" where
  "dom_links d = {(p, n). parentNode (d n) = Some p \<or> previousSibling (d n) = Some p}"

definition wf_dom :: "dom \<Rightarrow> bool" where
  "wf_dom d = wf (dom_links d)"

subsection \<open>State kept in the class list\<close>

definition setBooleanByClass :: "node \<Rightarrow> string \<Rightarrow> jsval \<Rightarrow> node" where
  "setBooleanByClass el name booleanValue =
     (if booleanValue = Bool True then el\<lparr>classList := classList_add (classList el) name\<rparr>
      else el\<lparr>classList := classList_remove (classList el) name\<rparr>)"

definition getBooleanByClass :: "node \<Rightarrow> string \<Rightarrow> bool" where
  "getBooleanByClass el name = classList_contains (classList el) name"

fun setOptionByClass_loop :: "node \<Rightarrow> string list \<Rightarrow> string \<Rightarrow> node" where
  "setOptionByClass_loop el [] optionValue = el"
| "setOptionByClass_loop el (opt # rest) optionValue =
     setOptionByClass_loop
       (if optionValue = opt then el\<lparr>classList := classList_add (classList el) opt\<rparr>
        else el\<lparr>classList := classList_remove (classList el) opt\<rparr>)
       rest optionValue"



subsection \<open>Typed values in the dataset\<close>

definition setStringInDataset ::
  "StringUtils \<Rightarrow> node \<Rightarrow> string \<Rightarrow> jsval \<Rightarrow> node \<times> unit outcome" where
  "setStringInDataset su el name stringValue =
     (if \<not> isCamelCase su name then (el, Throw IllegalArgument)
      else (el\<lparr>dataset := (dataset el)(name \<mapsto> ToString stringValue)\<rparr>, Return ()))"

definition getStringInDataset :: "node \<Rightarrow> string \<Rightarrow> jsval" where
  "getStringInDataset el name =
     (case dataset el name of None \<Rightarrow> Undefined | Some v \<Rightarrow> Str v)"



definition setBooleanInDataset ::
  "StringUtils \<Rightarrow> node \<Rightarrow> string \<Rightarrow> jsval \<Rightarrow> node \<times> unit outcome" where
  "setBooleanInDataset su el name booleanValue =
     (if \<not> isCamelCase su name then (el, Throw IllegalArgument)
      else (el\<lparr>dataset := (dataset el)(name \<mapsto> ToString booleanValue)\<rparr>, Return ()))"

definition getBooleanInDataset :: "node \<Rightarrow> string \<Rightarrow> bool" where
  "getBooleanInDataset el name = (dataset el name = Some ''true'')"

subsection \<open>Pixel values in the inline style\<close>



section \<open>Concrete objects for the examples\<close>

definition elem :: "string \<Rightarrow> string list \<Rightarrow> node_id option \<Rightarrow> node_id option \<Rightarrow> node" where
  "elem tag classes parent previous =
     \<lparr>nodeType = ELEMENT_NODE, tagName = Some tag, classList = classes,
      parentNode = parent, previousSibling = previous,
      dataset = Map.empty, style = (\<lambda>_. [])\<rparr>"

definition other_node :: "nat \<Rightarrow> node_id option \<Rightarrow> node_id option \<Rightarrow> node" where
  "other_node kind parent previous =
     \<lparr>nodeType = kind, tagName = None, classList = [],
      parentNode = parent, previousSibling = previous,
      dataset = Map.empty, style = (\<lambda>_. [])\<rparr>"

text \<open>
  A parsed page: the document (node type 9) at address 0, then
  \<open>HTML > (HEAD, BODY > DIV.top > DIV.x > (text, SPAN.x))\<close>. Every other address holds
  a detached text node.
\<close>

definition page_nodes :: "node list" where
  "page_nodes =
     [other_node 9 None None,
      elem ''HTML'' [] (Some 0) None,
      elem ''HEAD'' [] (Some 1) None,
      elem ''BODY'' [] (Some 1) (Some 2),
      elem ''DIV'' [''top''] (Some 3) None,
      elem ''DIV'' [''x''] (Some 4) None,
      other_node 3 (Some 5) None,
      elem ''SPAN'' [''x''] (Some 5) (Some 6)]"

definition page :: dom where
  "page n = (if n < length page_nodes then page_nodes ! n else other_node 3 None None)"

definition plain_div :: node where
  "plain_div = elem ''DIV'' [''a'', ''c'', ''keep''] None None"

text \<open>An accessor on \<open>plain_div\<close> whose computed style echoes a few fixed values.\<close>

definition sample_computed :: "node \<Rightarrow> string \<Rightarrow> string" where
  "sample_computed el name =
     (if name = ''width'' then ''auto''
      else if name = ''margin-left'' then ''12px''
      else if name = ''font-size'' then ''1.5em''
      else if name = ''height'' then ''100%''
      else [])"

definition sample_size :: ComputeSize where
  "sample_size = constructor sample_computed plain_div"

section \<open>Helper facts about the built-ins\<close>














text \<open>\<open>s.substring(0, s.length - 2)\<close> is \<open>s\<close> without its last two characters.\<close>

lemma clamp_index_length_minus_2: "clamp_index s (int (length s) - 2) = length s - 2"
  by (cases "length s < 2") (simp_all add: clamp_index_def nat_diff_distrib')

lemma butlast_butlast_take: "butlast (butlast s) = take (length s - 2) s"
  by (simp add: butlast_conv_take min_def numeral_2_eq_2)

lemma substring_drop_last_two: "substring s 0 (int (length s) - 2) = butlast (butlast s)"
  by (simp add: substring_def clamp_index_length_minus_2 butlast_butlast_take)
     (simp add: clamp_index_def)

lemmas example_defs =
  StringUtils_spec_def dash_case_def camel_case_def is_lower_def is_upper_def is_digit_def
  sample_size_def constructor_def sample_computed_def plain_div_def elem_def
  parseInt_def is_white_space_def digits_value_def digit_value_def

lemma margin_left_is_dash_case: "isDashCase StringUtils_spec ''margin-left''"
  by (simp add: StringUtils_spec_def dash_case_def is_lower_def is_digit_def)

lemma marginLeft_is_not_dash_case: "\<not> isDashCase StringUtils_spec ''marginLeft''"
  by (simp add: StringUtils_spec_def dash_case_def is_lower_def is_digit_def)



lemma isOpen_is_camel_case: "isCamelCase StringUtils_spec ''isOpen''"
  by (simp add: StringUtils_spec_def camel_case_def is_lower_def is_upper_def is_digit_def)





lemma setOptionByClass_loop_frame:
  "nodeType (setOptionByClass_loop el opts v) = nodeType el
   \<and> tagName (setOptionByClass_loop el opts v) = tagName el
   \<and> parentNode (setOptionByClass_loop el opts v) = parentNode el
   \<and> previousSibling (setOptionByClass_loop el opts v) = previousSibling el
   \<and> dataset (setOptionByClass_loop el opts v) = dataset el
   \<and> style (setOptionByClass_loop el opts v) = style el"
  by (induction opts arbitrary: el) simp_all


section \<open>The computed-size accessor\<close>



text \<open>
  Claim C7. For every hyphen-case name \<open>n\<close>, \<open>getPixelValue(n)\<close> returns normally, and its
  result is \<open>parseInt(_, 10)\<close> of the computed-style string for \<open>n\<close> without its last two
  characters, whatever that string is: nothing checks that it ends in \<open>px\<close>. The examples
  are the computed values \<open>auto\<close> (the result is \<open>NaN\<close>), \<open>100%\<close> (the result is 10) and
  \<open>1.5em\<close> (the result is 1).
\<close>

theorem getPixelValue_drops_two_chars_and_parses:
  "isDashCase su n \<Longrightarrow>
   getPixelValue su this n =
     Return (parseInt (butlast (butlast (computeStyle this (element this) n))))"
  by (simp add: getPixelValue_def getValue_def substring_drop_last_two)

theorem getPixelValue_drops_two_chars_and_parses_witness:
  "isDashCase StringUtils_spec ''width''
   \<and> computeStyle sample_size (element sample_size) ''width'' = ''auto''
   \<and> getPixelValue StringUtils_spec sample_size ''width'' = Return NaN
   \<and> isDashCase StringUtils_spec ''height''
   \<and> computeStyle sample_size (element sample_size) ''height'' = ''100%''
   \<and> getPixelValue StringUtils_spec sample_size ''height'' = Return (Num 10)
   \<and> isDashCase StringUtils_spec ''font-size''
   \<and> computeStyle sample_size (element sample_size) ''font-size'' = ''1.5em''
   \<and> getPixelValue StringUtils_spec sample_size ''font-size'' = Return (Num 1)"
  using getPixelValue_drops_two_chars_and_parses [of StringUtils_spec "''width''" sample_size]
    getPixelValue_drops_two_chars_and_parses [of StringUtils_spec "''height''" sample_size]
    getPixelValue_drops_two_chars_and_parses [of StringUtils_spec "''font-size''" sample_size]
  by (simp add: example_defs)

text \<open>
  Claim C10, as stated, fails: the two \<open>ComputeSize\<close> classes are not equivalent. On the
  name \<open>marginLeft\<close> the class of \<open>computesize.js\<close> raises \<open>IllegalArgument\<close> in all four
  methods, and the class of the file without a name returns normally.
\<close>

theorem ComputeSize_versions_differ:
  "getValue StringUtils_spec sample_size ''marginLeft''
     \<noteq> Return (getValue_part000 sample_size ''marginLeft'')
   \<and> setValue StringUtils_spec sample_size ''marginLeft'' (Str ''5px'')
     \<noteq> (setValue_part000 sample_size ''marginLeft'' (Str ''5px''), Return ())
   \<and> getPixelValue StringUtils_spec sample_size ''marginLeft''
     \<noteq> Return (getPixelValue_part000 sample_size ''marginLeft'')
   \<and> setPixelValue StringUtils_spec sample_size ''marginLeft'' (Num 5)
     \<noteq> (setPixelValue_part000 sample_size ''marginLeft'' (Num 5), Return ())"
  by (simp add: getValue_def setValue_def getPixelValue_def setPixelValue_def
      StringUtils_spec_def dash_case_def is_lower_def is_digit_def)

text \<open>
  Claim C10, amended. The two classes agree on hyphen-case names: there, for every value,
  \<open>getValue\<close>, \<open>setValue\<close>, \<open>getPixelValue\<close> and \<open>setPixelValue\<close> of \<open>computesize.js\<close>
  return what the methods of the file without a name return and perform the same write.
  On every other name the methods of \<open>computesize.js\<close> raise \<open>IllegalArgument\<close> and write
  nothing, while those of the file without a name raise nothing and \<open>setValue\<close> performs
  the write.
\<close>

theorem ComputeSize_versions_agree_on_dash_case:
  "(isDashCase su n \<longrightarrow>
      getValue su this n = Return (getValue_part000 this n)
    \<and> setValue su this n v = (setValue_part000 this n v, Return ())
    \<and> getPixelValue su this n = Return (getPixelValue_part000 this n)
    \<and> setPixelValue su this n v = (setPixelValue_part000 this n v, Return ()))
   \<and> (\<not> isDashCase su n \<longrightarrow>
      getValue su this n = Throw IllegalArgument
    \<and> setValue su this n v = (this, Throw IllegalArgument)
    \<and> getPixelValue su this n = Throw IllegalArgument
    \<and> setPixelValue su this n v = (this, Throw IllegalArgument)
    \<and> style (element (setValue_part000 this n v)) n
        = (if v = Undefined then [] else ToString v))"
  by (simp add: getValue_def setValue_def getPixelValue_def setPixelValue_def
      getValue_part000_def setValue_part000_def getPixelValue_part000_def
      setPixelValue_part000_def Let_def)

theorem ComputeSize_versions_agree_on_dash_case_witness:
  "isDashCase StringUtils_spec ''margin-left''
   \<and> getPixelValue StringUtils_spec sample_size ''margin-left''
       = Return (getPixelValue_part000 sample_size ''margin-left'')
   \<and> getPixelValue_part000 sample_size ''margin-left'' = Num 12
   \<and> \<not> isDashCase StringUtils_spec ''marginLeft''
   \<and> setValue StringUtils_spec sample_size ''marginLeft'' (Str ''5px'')
       = (sample_size, Throw IllegalArgument)
   \<and> style (element (setValue_part000 sample_size ''marginLeft'' (Str ''5px''))) ''marginLeft''
       = ''5px''"
proof -
  note dash = margin_left_is_dash_case
  note camel = marginLeft_is_not_dash_case
  have px: "getPixelValue_part000 sample_size ''margin-left'' = Num 12"
    by (simp add: getPixelValue_part000_def getValue_part000_def substring_drop_last_two
        example_defs)
  from ComputeSize_versions_agree_on_dash_case
         [of StringUtils_spec "''margin-left''" sample_size "Str ''5px''"]
       ComputeSize_versions_agree_on_dash_case
         [of StringUtils_spec "''marginLeft''" sample_size "Str ''5px''"]
       dash camel px
  show ?thesis by simp
qed

section \<open>State in the class list, the dataset and the inline style\<close>





text \<open>
  Claim C9. \<open>getBooleanInDataset\<close> returns \<open>true\<close> exactly when the string stored under
  the key is \<open>"true"\<close>: it returns \<open>false\<close> when the key is absent and when any other
  string is stored. For a camelCase key, storing \<open>true\<close> reads back \<open>true\<close> and storing
  \<open>false\<close> reads back \<open>false\<close>, which is also what an element reads that never had the
  key: the two cannot be told apart.
\<close>

theorem getBooleanInDataset_true_only:
  "getBooleanInDataset el k = (dataset el k = Some ''true'')
   \<and> (dataset el k = None \<longrightarrow> getBooleanInDataset el k = False)
   \<and> (dataset el k = Some stored \<and> stored \<noteq> ''true'' \<longrightarrow> getBooleanInDataset el k = False)
   \<and> (isCamelCase su k \<longrightarrow>
        getBooleanInDataset (fst (setBooleanInDataset su el k (Bool True))) k = True
      \<and> getBooleanInDataset (fst (setBooleanInDataset su el k (Bool False))) k = False)
   \<and> (isCamelCase su k \<and> dataset el k = None \<longrightarrow>
        getBooleanInDataset (fst (setBooleanInDataset su el k (Bool False))) k
          = getBooleanInDataset el k)"
  by (simp add: getBooleanInDataset_def setBooleanInDataset_def)

theorem getBooleanInDataset_true_only_witness:
  "isCamelCase StringUtils_spec ''isOpen''
   \<and> dataset plain_div ''isOpen'' = None
   \<and> getBooleanInDataset plain_div ''isOpen'' = False
   \<and> dataset (fst (setBooleanInDataset StringUtils_spec plain_div ''isOpen'' (Bool False))) ''isOpen''
       = Some ''false''
   \<and> ''false'' \<noteq> ''true''
   \<and> getBooleanInDataset (fst (setBooleanInDataset StringUtils_spec plain_div ''isOpen'' (Bool False)))
        ''isOpen'' = False
   \<and> getBooleanInDataset (fst (setBooleanInDataset StringUtils_spec plain_div ''isOpen'' (Bool True)))
        ''isOpen'' = True"
proof -
  note camel = isOpen_is_camel_case
  have absent: "dataset plain_div ''isOpen'' = None"
    by (simp add: plain_div_def elem_def)
  have stored:
    "dataset (fst (setBooleanInDataset StringUtils_spec plain_div ''isOpen'' (Bool False))) ''isOpen''
       = Some ''false''"
    using camel by (simp add: setBooleanInDataset_def)
  from getBooleanInDataset_true_only
         [where el = plain_div and k = "''isOpen''" and su = StringUtils_spec
            and stored = "''false''"]
       getBooleanInDataset_true_only
         [where el = "fst (setBooleanInDataset StringUtils_spec plain_div ''isOpen'' (Bool False))"
            and k = "''isOpen''" and su = StringUtils_spec and stored = "''false''"]
       camel absent stored
  show ?thesis by simp
qed



section \<open>The tree searches\<close>

text \<open>
  A result of one of the three strict searches lies strictly above the node the search
  started from, along parent and previous-sibling links; on the platform's trees each
  search returns. \<open>findElementAndParent\<close> never raises, and what it returns is neither the
  stop node nor a node tagged \<open>BODY\<close>.
\<close>

lemma parent_link: "parentNode (d e) = Some p \<Longrightarrow> (p, e) \<in> dom_links d"
  by (simp add: dom_links_def)

lemma previousOrParent_link: "previousOrParent (d e) = Some p \<Longrightarrow> (p, e) \<in> dom_links d"
  by (auto simp: dom_links_def previousOrParent_def Let_def split: if_splits)

lemma wf_dom_no_cycle: "wf_dom d \<Longrightarrow> (e, e) \<notin> (dom_links d)\<^sup>+"
  by (simp add: wf_dom_def wf_trancl)

lemma findParentElement_result_above_aux:
  assumes run: "findParentElement d el cn tn stop = Some y"
  shows "\<forall>r. y = Return (Some r) \<longrightarrow> (\<exists>e. el = Some e \<and> (r, e) \<in> (dom_links d)\<^sup>+)"
proof (rule findParentElement.raw_induct
    [where P = "\<lambda>d el cn tn stop y.
       \<forall>r. y = Return (Some r) \<longrightarrow> (\<exists>e. el = Some e \<and> (r, e) \<in> (dom_links d)\<^sup>+)",
     OF _ run], goal_cases)
  case (1 f d el cn tn stop y)
  note IH = 1(1) and eq = 1(2)
  show ?case
  proof (intro allI impI)
    fix r
    assume y: "y = Return (Some r)"
    from eq y obtain e where el: "el = Some e"
      by (cases el) auto
    from eq y el obtain p where p: "parentNode (d e) = Some p"
      by (cases "parentNode (d e)") (auto split: if_splits)
    then have link: "(p, e) \<in> dom_links d" by (rule parent_link)
    show "\<exists>e. el = Some e \<and> (r, e) \<in> (dom_links d)\<^sup>+"
    proof (cases "matchesClassAndTag (d p) cn tn")
      case True
      with eq y el p have "r = p" by (auto split: if_splits)
      with link el show ?thesis by auto
    next
      case False
      with eq y el p have "f d (Some p) cn tn stop = Some y"
        by (auto split: if_splits)
      from IH [OF this] y have "(r, p) \<in> (dom_links d)\<^sup>+" by simp
      with link el show ?thesis by (auto intro: trancl_into_trancl)
    qed
  qed
qed

lemma findParentElement_result_above:
  "findParentElement d el cn tn stop = Some (Return (Some r))
     \<Longrightarrow> \<exists>e. el = Some e \<and> (r, e) \<in> (dom_links d)\<^sup>+"
  using findParentElement_result_above_aux by blast

lemma findParentElement_terminates:
  assumes "wf_dom d"
  shows "\<exists>y. findParentElement d el cn tn stop = Some y"
proof (cases el)
  case None
  then show ?thesis by (simp add: findParentElement.simps)
next
  case (Some e0)
  from assms have "wf (dom_links d)" by (simp add: wf_dom_def)
  then have "\<exists>y. findParentElement d (Some e) cn tn stop = Some y" for e
  proof (induction e rule: wf_induct_rule)
    case (less e)
    show ?case
    proof (cases "parentNode (d e)")
      case None
      then show ?thesis by (subst findParentElement.simps) simp
    next
      case (Some p)
      then have "(p, e) \<in> dom_links d" by (rule parent_link)
      then obtain y where "findParentElement d (Some p) cn tn stop = Some y"
        using less.IH by blast
      with Some show ?thesis by (subst findParentElement.simps) simp
    qed
  qed
  with Some show ?thesis by simp
qed

lemma findParentElement_not_start:
  assumes "wf_dom d"
  shows "\<exists>y. findParentElement d (Some s) cn tn stop = Some y \<and> y \<noteq> Return (Some s)"
proof -
  from findParentElement_terminates [OF assms]
  obtain y where y: "findParentElement d (Some s) cn tn stop = Some y" by blast
  have "y \<noteq> Return (Some s)"
  proof
    assume "y = Return (Some s)"
    with y have "findParentElement d (Some s) cn tn stop = Some (Return (Some s))"
      by simp
    from findParentElement_result_above [OF this]
    have "(s, s) \<in> (dom_links d)\<^sup>+" by simp
    with wf_dom_no_cycle [OF assms] show False by simp
  qed
  with y show ?thesis by simp
qed

lemma findPreviousElementAndParent_result_above_aux:
  assumes run: "findPreviousElementAndParent d el cn tn stop = Some y"
  shows "\<forall>r. y = Return (Some r) \<longrightarrow> (\<exists>e. el = Some e \<and> (r, e) \<in> (dom_links d)\<^sup>+)"
proof (rule findPreviousElementAndParent.raw_induct
    [where P = "\<lambda>d el cn tn stop y.
       \<forall>r. y = Return (Some r) \<longrightarrow> (\<exists>e. el = Some e \<and> (r, e) \<in> (dom_links d)\<^sup>+)",
     OF _ run], goal_cases)
  case (1 f d el cn tn stop y)
  note IH = 1(1) and eq = 1(2)
  show ?case
  proof (intro allI impI)
    fix r
    assume y: "y = Return (Some r)"
    from eq y obtain e where el: "el = Some e"
      by (cases el) auto
    from eq y el obtain p where p: "previousOrParent (d e) = Some p"
      by (cases "previousOrParent (d e)") (auto split: if_splits)
    then have link: "(p, e) \<in> dom_links d" by (rule previousOrParent_link)
    show "\<exists>e. el = Some e \<and> (r, e) \<in> (dom_links d)\<^sup>+"
    proof (cases "matchesClassAndTag (d p) cn tn")
      case True
      with eq y el p have "r = p" by (auto split: if_splits)
      with link el show ?thesis by auto
    next
      case False
      with eq y el p have "f d (Some p) cn tn stop = Some y"
        by (auto split: if_splits)
      from IH [OF this] y have "(r, p) \<in> (dom_links d)\<^sup>+" by simp
      with link el show ?thesis by (auto intro: trancl_into_trancl)
    qed
  qed
qed

lemma findPreviousElementAndParent_result_above:
  "findPreviousElementAndParent d el cn tn stop = Some (Return (Some r))
     \<Longrightarrow> \<exists>e. el = Some e \<and> (r, e) \<in> (dom_links d)\<^sup>+"
  using findPreviousElementAndParent_result_above_aux by blast

lemma findPreviousElementAndParent_terminates:
  assumes "wf_dom d"
  shows "\<exists>y. findPreviousElementAndParent d el cn tn stop = Some y"
proof (cases el)
  case None
  then show ?thesis by (simp add: findPreviousElementAndParent.simps)
next
  case (Some e0)
  from assms have "wf (dom_links d)" by (simp add: wf_dom_def)
  then have "\<exists>y. findPreviousElementAndParent d (Some e) cn tn stop = Some y" for e
  proof (induction e rule: wf_induct_rule)
    case (less e)
    show ?case
    proof (cases "previousOrParent (d e)")
      case None
      then show ?thesis by (subst findPreviousElementAndParent.simps) simp
    next
      case (Some p)
      then have "(p, e) \<in> dom_links d" by (rule previousOrParent_link)
      then obtain y where "findPreviousElementAndParent d (Some p) cn tn stop = Some y"
        using less.IH by blast
      with Some show ?thesis by (subst findPreviousElementAndParent.simps) simp
    qed
  qed
  with Some show ?thesis by simp
qed

lemma findPreviousElementAndParent_not_start:
  assumes "wf_dom d"
  shows "\<exists>y. findPreviousElementAndParent d (Some s) cn tn stop = Some y \<and> y \<noteq> Return (Some s)"
proof -
  from findPreviousElementAndParent_terminates [OF assms]
  obtain y where y: "findPreviousElementAndParent d (Some s) cn tn stop = Some y" by blast
  have "y \<noteq> Return (Some s)"
  proof
    assume "y = Return (Some s)"
    with y have "findPreviousElementAndParent d (Some s) cn tn stop = Some (Return (Some s))"
      by simp
    from findPreviousElementAndParent_result_above [OF this]
    have "(s, s) \<in> (dom_links d)\<^sup>+" by simp
    with wf_dom_no_cycle [OF assms] show False by simp
  qed
  with y show ?thesis by simp
qed

lemma findPreviousElementAndParentByClassNames_result_above_aux:
  assumes run: "findPreviousElementAndParentByClassNames d el cns stop = Some y"
  shows "\<forall>r. y = Return (Some r) \<longrightarrow> (\<exists>e. el = Some e \<and> (r, e) \<in> (dom_links d)\<^sup>+)"
proof (rule findPreviousElementAndParentByClassNames.raw_induct
    [where P = "\<lambda>d el cns stop y.
       \<forall>r. y = Return (Some r) \<longrightarrow> (\<exists>e. el = Some e \<and> (r, e) \<in> (dom_links d)\<^sup>+)",
     OF _ run], goal_cases)
  case (1 f d el cns stop y)
  note IH = 1(1) and eq = 1(2)
  show ?case
  proof (intro allI impI)
    fix r
    assume y: "y = Return (Some r)"
    from eq y obtain e where el: "el = Some e"
      by (cases el) auto
    from eq y el obtain p where p: "previousOrParent (d e) = Some p"
      by (cases "previousOrParent (d e)") (auto split: if_splits)
    then have link: "(p, e) \<in> dom_links d" by (rule previousOrParent_link)
    show "\<exists>e. el = Some e \<and> (r, e) \<in> (dom_links d)\<^sup>+"
    proof (cases "nodeType (d p) = ELEMENT_NODE \<and> containsAllClassNames (classList (d p)) cns")
      case True
      with eq y el p have "r = p" by (auto split: if_splits)
      with link el show ?thesis by auto
    next
      case False
      with eq y el p have "f d (Some p) cns stop = Some y"
        by (auto split: if_splits)
      from IH [OF this] y have "(r, p) \<in> (dom_links d)\<^sup>+" by simp
      with link el show ?thesis by (auto intro: trancl_into_trancl)
    qed
  qed
qed

lemma findPreviousElementAndParentByClassNames_result_above:
  "findPreviousElementAndParentByClassNames d el cns stop = Some (Return (Some r))
     \<Longrightarrow> \<exists>e. el = Some e \<and> (r, e) \<in> (dom_links d)\<^sup>+"
  using findPreviousElementAndParentByClassNames_result_above_aux by blast

lemma findPreviousElementAndParentByClassNames_terminates:
  assumes "wf_dom d"
  shows "\<exists>y. findPreviousElementAndParentByClassNames d el cns stop = Some y"
proof (cases el)
  case None
  then show ?thesis by (simp add: findPreviousElementAndParentByClassNames.simps)
next
  case (Some e0)
  from assms have "wf (dom_links d)" by (simp add: wf_dom_def)
  then have "\<exists>y. findPreviousElementAndParentByClassNames d (Some e) cns stop = Some y" for e
  proof (induction e rule: wf_induct_rule)
    case (less e)
    show ?case
    proof (cases "previousOrParent (d e)")
      case None
      then show ?thesis by (subst findPreviousElementAndParentByClassNames.simps) simp
    next
      case (Some p)
      then have "(p, e) \<in> dom_links d" by (rule previousOrParent_link)
      then obtain y where "findPreviousElementAndParentByClassNames d (Some p) cns stop = Some y"
        using less.IH by blast
      with Some show ?thesis by (subst findPreviousElementAndParentByClassNames.simps) simp
    qed
  qed
  with Some show ?thesis by simp
qed

lemma findPreviousElementAndParentByClassNames_not_start:
  assumes "wf_dom d"
  shows "\<exists>y. findPreviousElementAndParentByClassNames d (Some s) cns stop = Some y \<and> y \<noteq> Return (Some s)"
proof -
  from findPreviousElementAndParentByClassNames_terminates [OF assms]
  obtain y where y: "findPreviousElementAndParentByClassNames d (Some s) cns stop = Some y" by blast
  have "y \<noteq> Return (Some s)"
  proof
    assume "y = Return (Some s)"
    with y have "findPreviousElementAndParentByClassNames d (Some s) cns stop = Some (Return (Some s))"
      by simp
    from findPreviousElementAndParentByClassNames_result_above [OF this]
    have "(s, s) \<in> (dom_links d)\<^sup>+" by simp
    with wf_dom_no_cycle [OF assms] show False by simp
  qed
  with y show ?thesis by simp
qed



lemma findElementAndParent_result_aux:
  assumes run: "findElementAndParent d el cn tn stop = Some y"
  shows "\<forall>r. y = Return (Some r) \<longrightarrow>
           Some r \<noteq> stop \<and> tagName (d r) \<noteq> Some ''BODY'' \<and> matchesClassAndTag (d r) cn tn"
proof (rule findElementAndParent.raw_induct
    [where P = "\<lambda>d el cn tn stop y.
       \<forall>r. y = Return (Some r) \<longrightarrow>
         Some r \<noteq> stop \<and> tagName (d r) \<noteq> Some ''BODY'' \<and> matchesClassAndTag (d r) cn tn",
     OF _ run], goal_cases)
  case (1 f d el cn tn stop y)
  note IH = 1(1) and eq = 1(2)
  show ?case
  proof (intro allI impI)
    fix r
    assume y: "y = Return (Some r)"
    from eq y obtain e where el: "el = Some e"
      by (cases el) auto
    show "Some r \<noteq> stop \<and> tagName (d r) \<noteq> Some ''BODY'' \<and> matchesClassAndTag (d r) cn tn"
    proof (cases "matchesClassAndTag (d e) cn tn")
      case True
      with eq y el show ?thesis by (auto split: if_splits)
    next
      case False
      with eq y el have "f d (parentNode (d e)) cn tn stop = Some y"
        by (auto split: if_splits)
      from IH [OF this] y show ?thesis by simp
    qed
  qed
qed

lemma findElementAndParent_respects_boundary:
  "findElementAndParent d el cn tn stop = Some (Return (Some r))
     \<Longrightarrow> Some r \<noteq> stop \<and> tagName (d r) \<noteq> Some ''BODY'' \<and> matchesClassAndTag (d r) cn tn"
  using findElementAndParent_result_aux by blast

lemma findElementAndParent_never_throws_aux:
  assumes run: "findElementAndParent d el cn tn stop = Some y"
  shows "\<forall>err. y \<noteq> Throw err"
proof (rule findElementAndParent.raw_induct
    [where P = "\<lambda>d el cn tn stop y. \<forall>err. y \<noteq> Throw err", OF _ run], goal_cases)
  case (1 f d el cn tn stop y)
  note IH = 1(1) and eq = 1(2)
  show ?case
  proof (cases el)
    case None
    with eq show ?thesis by auto
  next
    case (Some e)
    show ?thesis
    proof (cases "Some e \<noteq> stop \<and> tagName (d e) \<noteq> Some ''BODY'' \<and> \<not> matchesClassAndTag (d e) cn tn")
      case True
      with eq Some have "f d (parentNode (d e)) cn tn stop = Some y" by simp
      from IH [OF this] show ?thesis .
    next
      case False
      with eq Some show ?thesis by (auto split: if_splits)
    qed
  qed
qed

lemma findElementAndParent_never_throws:
  "findElementAndParent d el cn tn stop \<noteq> Some (Throw err)"
  using findElementAndParent_never_throws_aux by blast

lemma findElementAndParent_terminates:
  assumes "wf_dom d"
  shows "\<exists>y. findElementAndParent d el cn tn stop = Some y"
proof (cases el)
  case None
  then show ?thesis by (simp add: findElementAndParent.simps)
next
  case (Some e0)
  from assms have "wf (dom_links d)" by (simp add: wf_dom_def)
  then have "\<exists>y. findElementAndParent d (Some e) cn tn stop = Some y" for e
  proof (induction e rule: wf_induct_rule)
    case (less e)
    show ?case
    proof (cases "parentNode (d e)")
      case None
      then show ?thesis
        by (subst findElementAndParent.simps) (simp add: findElementAndParent.simps)
    next
      case (Some p)
      then have "(p, e) \<in> dom_links d" by (rule parent_link)
      then obtain y where "findElementAndParent d (Some p) cn tn stop = Some y"
        using less.IH by blast
      with Some show ?thesis by (subst findElementAndParent.simps) simp
    qed
  qed
  with Some show ?thesis by simp
qed

lemma findElementAndParent_start:
  "Some s \<noteq> stop \<Longrightarrow> tagName (d s) \<noteq> Some ''BODY'' \<Longrightarrow> matchesClassAndTag (d s) cn tn
     \<Longrightarrow> findElementAndParent d (Some s) cn tn stop = Some (Return (Some s))"
  by (subst findElementAndParent.simps) simp

lemma page_links_decrease: "(p, n) \<in> dom_links page \<Longrightarrow> p < n"
  by (auto simp: dom_links_def page_def page_nodes_def elem_def other_node_def nth_Cons'
      split: if_splits)

lemma wf_dom_page: "wf_dom page"
  unfolding wf_dom_def
  by (rule wf_subset [OF wf_less]) (auto dest: page_links_decrease)

lemmas page_defs =
  page_def page_nodes_def elem_def other_node_def matchesClassAndTag_def containsClassName_def
  containsAllClassNames_def classList_contains_def ELEMENT_NODE_def previousOrParent_def

text \<open>
  Claim C3. On every tree of the platform, for every starting node, class name, tag name
  and stop node, \<open>findParentElement\<close>, \<open>findPreviousElementAndParent\<close> and
  \<open>findPreviousElementAndParentByClassNames\<close> return, and what they return is never the
  starting node, whether or not that node satisfies the predicate.
  \<open>findElementAndParent\<close> tests the starting node first: when the starting node is not
  the stop node, is not tagged \<open>BODY\<close> and satisfies the predicate, it is the result.
\<close>

theorem strict_searches_never_return_start:
  "wf_dom d \<Longrightarrow>
     (\<exists>y. findParentElement d (Some s) cn tn stop = Some y \<and> y \<noteq> Return (Some s))
   \<and> (\<exists>y. findPreviousElementAndParent d (Some s) cn tn stop = Some y \<and> y \<noteq> Return (Some s))
   \<and> (\<exists>y. findPreviousElementAndParentByClassNames d (Some s) cns stop = Some y
          \<and> y \<noteq> Return (Some s))
   \<and> (Some s \<noteq> stop \<and> tagName (d s) \<noteq> Some ''BODY'' \<and> matchesClassAndTag (d s) cn tn
        \<longrightarrow> findElementAndParent d (Some s) cn tn stop = Some (Return (Some s)))"
  using findParentElement_not_start [of d s cn tn stop]
    findPreviousElementAndParent_not_start [of d s cn tn stop]
    findPreviousElementAndParentByClassNames_not_start [of d s cns stop]
    findElementAndParent_start [of s stop d cn tn]
  by blast

theorem strict_searches_never_return_start_witness:
  "wf_dom page
   \<and> matchesClassAndTag (page 7) (Some ''x'') None
   \<and> findParentElement page (Some 7) (Some ''x'') None None = Some (Return (Some 5))
   \<and> findPreviousElementAndParent page (Some 7) (Some ''x'') None None = Some (Return (Some 5))
   \<and> findPreviousElementAndParentByClassNames page (Some 7) [''x''] None = Some (Return (Some 5))
   \<and> findElementAndParent page (Some 7) (Some ''x'') None None = Some (Return (Some 7))"
proof -
  have b: "findParentElement page (Some 7) (Some ''x'') None None = Some (Return (Some 5))"
    by (simp add: findParentElement.simps page_defs)
  have c: "findPreviousElementAndParent page (Some 7) (Some ''x'') None None
            = Some (Return (Some 5))"
    by (simp add: findPreviousElementAndParent.simps page_defs)
  have n: "findPreviousElementAndParentByClassNames page (Some 7) [''x''] None
            = Some (Return (Some 5))"
    by (simp add: findPreviousElementAndParentByClassNames.simps page_defs)
  have m: "matchesClassAndTag (page 7) (Some ''x'') None"
    by (simp add: page_defs)
  have t: "tagName (page 7) \<noteq> Some ''BODY''"
    by (simp add: page_defs)
  from strict_searches_never_return_start
         [OF wf_dom_page, of 7 "Some ''x''" None None "[''x'']"] wf_dom_page b c n m t
  show ?thesis by simp
qed

text \<open>
  Claim C1 fails on the code for \<open>findParentElement\<close>, \<open>findPreviousElementAndParent\<close> and
  \<open>findPreviousElementAndParentByClassNames\<close>: their loops test the node they have just
  moved to before the loop condition looks at it. On the page \<open>BODY > DIV.top > DIV.x >
  (text, SPAN.x)\<close>, started at the \<open>SPAN\<close> with stop node \<open>DIV.x\<close> and class \<open>x\<close>, each of
  them returns the stop node; started at \<open>DIV.top\<close> with tag name \<open>BODY\<close>, the first two
  return the element tagged \<open>BODY\<close>. \<open>findElementAndParent\<close> returns \<open>undefined\<close> at the
  stop node and at \<open>BODY\<close>, as the claim says.
\<close>

theorem strict_searches_return_the_boundary:
  "findParentElement page (Some 7) (Some ''x'') None (Some 5) = Some (Return (Some 5))
   \<and> findPreviousElementAndParent page (Some 7) (Some ''x'') None (Some 5) = Some (Return (Some 5))
   \<and> findPreviousElementAndParentByClassNames page (Some 7) [''x''] (Some 5)
       = Some (Return (Some 5))
   \<and> tagName (page 3) = Some ''BODY''
   \<and> findParentElement page (Some 4) None (Some ''BODY'') None = Some (Return (Some 3))
   \<and> findPreviousElementAndParent page (Some 4) None (Some ''BODY'') None
       = Some (Return (Some 3))
   \<and> findElementAndParent page (Some 7) (Some ''top'') None (Some 4) = Some (Return None)
   \<and> findElementAndParent page (Some 7) None (Some ''BODY'') None = Some (Return None)"
  by (simp add: findParentElement.simps findPreviousElementAndParent.simps
      findPreviousElementAndParentByClassNames.simps findElementAndParent.simps page_defs)

text \<open>
  Claim C2 fails on the code for the same three searches: started at the \<open>HEAD\<close> element
  of the page, no ancestor matches, the walk reaches the document, whose parent is
  \<open>null\<close>, and the read of \<open>nodeType\<close> on \<open>null\<close> raises a \<open>TypeError\<close>. On the same
  input \<open>findElementAndParent\<close> returns \<open>undefined\<close>.
\<close>

theorem strict_searches_throw_on_null_parent:
  "parentNode (page 0) = None
   \<and> findParentElement page (Some 2) (Some ''x'') None None = Some (Throw TypeError)
   \<and> findPreviousElementAndParent page (Some 2) (Some ''x'') None None = Some (Throw TypeError)
   \<and> findPreviousElementAndParentByClassNames page (Some 2) [''x''] None
       = Some (Throw TypeError)
   \<and> findElementAndParent page (Some 2) (Some ''x'') None None = Some (Return None)"
  by (simp add: findParentElement.simps findPreviousElementAndParent.simps
      findPreviousElementAndParentByClassNames.simps findElementAndParent.simps page_defs)

end
